theory Spec2Isabelle
  imports Main "HOL-Library.Sublist"
begin

section \<open>Values shared by the worker services\<close>

text \<open>
  A JavaScript exception value: the constructor name and the message.
  \<open>toString\<close> is what a template literal prints for it.
\<close>

datatype error = Error (err_name: string) (message: string)

definition toString :: "error \<Rightarrow> string" where
  "toString e = err_name e @ '': '' @ message e"

text \<open>Decimal rendering of a non-negative integer, as a template literal prints a count.\<close>

fun decimal :: "nat \<Rightarrow> string" where
  "decimal n =
     (if n < 10 then [''0123456789'' ! n]
      else decimal (n div 10) @ [''0123456789'' ! (n mod 10)])"

declare decimal.simps [simp del]

subsection \<open>The logger and the state of one worker\<close>

datatype level = DEBUG | INFO | ERROR

text \<open>One log line: severity, text, and the error object passed as second argument, if any.\<close>

datatype log_entry = Log (lvl: level) (log_text: string) (cause: "error option")

text \<open>
  The state threaded through the asynchronous methods: the log lines emitted so far, in
  order, and the rest of the world (\<open>ext\<close>), which the collaborators act on.
\<close>

record 'w state =
  logs :: "log_entry list"
  ext :: 'w

definition logger_debug :: "string \<Rightarrow> 'w state \<Rightarrow> 'w state" where
  "logger_debug msg s = s\<lparr>logs := logs s @ [Log DEBUG msg None]\<rparr>"

definition logger_info :: "string \<Rightarrow> 'w state \<Rightarrow> 'w state" where
  "logger_info msg s = s\<lparr>logs := logs s @ [Log INFO msg None]\<rparr>"

definition logger_error :: "string \<Rightarrow> error option \<Rightarrow> 'w state \<Rightarrow> 'w state" where
  "logger_error msg err s = s\<lparr>logs := logs s @ [Log ERROR msg err]\<rparr>"

text \<open>An asynchronous method: it resolves (\<open>Inr\<close>) or rejects (\<open>Inl\<close>), and leaves a state.\<close>

type_synonym ('w, 'a) async = "'w state \<Rightarrow> (error + 'a) \<times> 'w state"

section \<open>TraceConclusionService\<close>

text \<open>The argument of \<open>queryClickhouse\<close> and the rows it resolves with.\<close>

record ch_request =
  query :: string
  params :: "(string \<times> string) list"
  tags :: "(string \<times> string) list"

datatype row = Row (trace_id: string)

subsection \<open>The query text of findConcludedTraces\<close>

definition INACTIVITY_THRESHOLD_SECONDS :: nat where
  "INACTIVITY_THRESHOLD_SECONDS = 60"

definition nl :: string where
  "nl = [CHR 0x0A]"

text \<open>The template literal of \<open>findConcludedTraces\<close>, line by line, with its one hole.\<close>

definition query_text :: "nat \<Rightarrow> string" where
  "query_text threshold =
     nl @ ''      WITH trace_latest_updates AS ('' @
     nl @ ''        SELECT'' @
     nl @ ''          trace_id,'' @
     nl @ ''          max(updated_at) as last_updated'' @
     nl @ ''        FROM observations FINAL'' @
     nl @ ''        WHERE updated_at < now() - INTERVAL '' @ decimal threshold @ '' SECOND'' @
     nl @ ''        GROUP BY trace_id'' @
     nl @ ''      )'' @
     nl @ ''      SELECT DISTINCT'' @
     nl @ ''        t.id as trace_id'' @
     nl @ ''      FROM traces FINAL t'' @
     nl @ ''      INNER JOIN trace_latest_updates tlu ON t.id = tlu.trace_id'' @
     nl @ ''      WHERE NOT has(mapKeys(t.metadata), 'feature_id')'' @
     nl @ ''      AND t.timestamp < now() - INTERVAL '' @ decimal threshold @ '' SECOND'' @
     nl @ ''      LIMIT 1000'' @
     nl @ ''    ''"

definition concluded_request :: "ch_request" where
  "concluded_request =
     \<lparr>query = query_text INACTIVITY_THRESHOLD_SECONDS,
      params = [],
      tags = [(''feature'', ''trace-conclusion''), (''type'', ''query''),
              (''kind'', ''find-concluded'')]\<rparr>"

subsection \<open>findConcludedTraces\<close>

text \<open>
  \<open>queryClickhouse\<close> is the analytical store: it resolves with rows or rejects.
  The \<open>try\<close>/\<open>catch\<close> turns a rejection into the empty result and an error log.
\<close>

definition findConcludedTraces ::
    "(ch_request \<Rightarrow> error + row list) \<Rightarrow> ('w, string list) async" where
  "findConcludedTraces queryClickhouse s =
     (case queryClickhouse concluded_request of
        Inr results \<Rightarrow>
          (let traceIds = map trace_id results
           in (Inr traceIds,
               if length traceIds > 0
               then logger_info (''Found '' @ decimal (length traceIds) @
                                 '' concluded traces ready for processing'') s
               else s))
      | Inl err \<Rightarrow>
          (Inr [], logger_error ''Failed to query concluded traces:'' (Some err) s))"

subsection \<open>processConcludedTraces\<close>

text \<open>
  The \<open>for ... of\<close> loop with its two counters. \<open>notify\<close> is the imported
  \<open>notifyTraceConcluded\<close>; a rejection is caught inside the loop body.
\<close>

fun notify_loop ::
    "(string \<Rightarrow> ('w, unit) async) \<Rightarrow> string list \<Rightarrow> nat \<times> nat \<Rightarrow> 'w state
      \<Rightarrow> (nat \<times> nat) \<times> 'w state" where
  "notify_loop notify [] (successCount, failureCount) s = ((successCount, failureCount), s)"
| "notify_loop notify (traceId # rest) (successCount, failureCount) s =
     (case notify traceId s of
        (Inr _, s1) \<Rightarrow>
          notify_loop notify rest (successCount + 1, failureCount)
            (logger_debug (''Successfully notified trace concluded: '' @ traceId) s1)
      | (Inl err, s1) \<Rightarrow>
          notify_loop notify rest (successCount, failureCount + 1)
            (logger_error (''Failed to notify trace concluded for '' @ traceId @ '':'')
               (Some err) s1))"

definition summary_text :: "nat \<Rightarrow> nat \<Rightarrow> string" where
  "summary_text successCount failureCount =
     ''Processed concluded traces: '' @ decimal successCount @ '' succeeded, '' @
     decimal failureCount @ '' failed''"

definition processConcludedTraces ::
    "(string \<Rightarrow> ('w, unit) async) \<Rightarrow> string list \<Rightarrow> ('w, nat) async" where
  "processConcludedTraces notify traceIds s =
     (if length traceIds = 0 then (Inr 0, s)
      else
        (let s1 = logger_info (''Processing '' @ decimal (length traceIds) @
                               '' concluded traces'') s
         in case notify_loop notify traceIds (0, 0) s1 of
              ((successCount, failureCount), s2) \<Rightarrow>
                (Inr successCount,
                 logger_info (summary_text successCount failureCount) s2)))"

subsection \<open>checkAndProcessConcludedTraces\<close>

text \<open>
  The method body over the two methods it calls through \<open>this\<close>: one \<open>try\<close> around
  both awaits, the \<open>catch\<close> logging and returning 0.
\<close>

definition checkAndProcessConcludedTraces_on ::
    "('w, string list) async \<Rightarrow> (string list \<Rightarrow> ('w, nat) async) \<Rightarrow> ('w, nat) async" where
  "checkAndProcessConcludedTraces_on findTraces process s =
     (case findTraces s of
        (Inr traceIds, s1) \<Rightarrow>
          (case process traceIds s1 of
             (Inr n, s2) \<Rightarrow> (Inr n, s2)
           | (Inl err, s2) \<Rightarrow>
               (Inr 0, logger_error ''Error in trace conclusion check:'' (Some err) s2))
      | (Inl err, s1) \<Rightarrow>
          (Inr 0, logger_error ''Error in trace conclusion check:'' (Some err) s1))"

definition checkAndProcessConcludedTraces ::
    "(ch_request \<Rightarrow> error + row list) \<Rightarrow> (string \<Rightarrow> ('w, unit) async) \<Rightarrow> ('w, nat) async" where
  "checkAndProcessConcludedTraces queryClickhouse notify =
     checkAndProcessConcludedTraces_on (findConcludedTraces queryClickhouse)
       (processConcludedTraces notify)"

section \<open>TraceConclusionRunner\<close>

definition execute :: "('w, nat) async \<Rightarrow> ('w, unit) async" where
  "execute check s =
     (case check (logger_debug ''Starting trace conclusion check'' s) of
        (Inl err, s1) \<Rightarrow> (Inl err, s1)
      | (Inr processedCount, s1) \<Rightarrow>
          (Inr (),
           if processedCount > 0
           then logger_info (''Trace conclusion check: processed '' @
                             decimal processedCount @ '' traces'') s1
           else logger_debug ''Trace conclusion check: no traces to process'' s1))"

section \<open>notifyTraceConcluded\<close>

text \<open>
  The HTTP client. A request is the URL and the \<open>trace_id\<close> of the JSON body; the
  world of the worker is the list of requests sent so far. The server is any function
  from the requests already received and the new one to an answer. \<open>axios.post\<close>
  resolves on a status from 200 to 299 (the library's default \<open>validateStatus\<close>) and
  rejects on every other status and on a transport error.
\<close>

datatype request = Post (url: string) (body_trace_id: string)

datatype http_outcome = Response nat | TransportError string

definition axios_post ::
    "(request list \<Rightarrow> request \<Rightarrow> http_outcome) \<Rightarrow> string \<Rightarrow> string
      \<Rightarrow> (request list, nat) async" where
  "axios_post server u traceId s =
     (let req = Post u traceId;
          s1 = s\<lparr>ext := ext s @ [req]\<rparr>
      in case server (ext s) req of
           Response status \<Rightarrow>
             (if 200 \<le> status \<and> status < 300 then (Inr status, s1)
              else (Inl (Error ''AxiosError''
                           (''Request failed with status code '' @ decimal status)), s1))
         | TransportError m \<Rightarrow> (Inl (Error ''AxiosError'' m), s1))"

text \<open>
  \<open>notifyTraceConcluded\<close> as the repository documents it: the post sits in a
  \<open>try\<close> whose \<open>catch\<close> logs and does not rethrow.
\<close>

definition notifyTraceConcluded ::
    "(request list \<Rightarrow> request \<Rightarrow> http_outcome) \<Rightarrow> string \<Rightarrow> string
      \<Rightarrow> (request list, unit) async" where
  "notifyTraceConcluded server API_BASE_URL traceId s =
     (case axios_post server (API_BASE_URL @ ''/api/features/analyze'') traceId s of
        (Inr _, s1) \<Rightarrow> (Inr (), s1)
      | (Inl err, s1) \<Rightarrow>
          (Inr (), logger_error (''Failed to notify features analyze: '' @ toString err)
                     None s1))"

section \<open>Recording the calls made to a collaborator\<close>

text \<open>
  As the mocks of the test suite do: \<open>spy notify\<close> behaves as \<open>notify\<close> on the
  underlying world and appends, to a list kept beside it, the argument of each call and
  whether the call resolved.
\<close>

definition spy ::
    "(string \<Rightarrow> ('w, unit) async) \<Rightarrow> string \<Rightarrow> ('w \<times> (string \<times> bool) list, unit) async" where
  "spy notify traceId s =
     (case notify traceId \<lparr>logs = logs s, ext = fst (ext s)\<rparr> of
        (r, s1) \<Rightarrow>
          (r, \<lparr>logs = logs s1, ext = (ext s1, snd (ext s) @ [(traceId, \<not> isl r)])\<rparr>))"

definition calls :: "('w \<times> (string \<times> bool) list) state \<Rightarrow> (string \<times> bool) list" where
  "calls s = snd (ext s)"

section \<open>The analytical store\<close>

text \<open>
  The two tables the query names, with the columns it reads. Times are milliseconds;
  \<open>metadata\<close> is the \<open>Map(String, String)\<close> column.
\<close>

record observation =
  o_trace_id :: string
  updated_at :: int

record trace =
  t_id :: string
  timestamp :: int
  metadata :: "(string \<times> string) list"

record database =
  observations :: "observation list"
  traces :: "trace list"

definition cutoff :: "nat \<Rightarrow> int \<Rightarrow> int" where
  \<comment> \<open>\<open>now() - INTERVAL threshold SECOND\<close>\<close>
  "cutoff threshold now = now - 1000 * int threshold"

definition mapKeys :: "(string \<times> string) list \<Rightarrow> string list" where
  "mapKeys m = map fst m"

definition has :: "string list \<Rightarrow> string \<Rightarrow> bool" where
  "has ks k = (k \<in> set ks)"

text \<open>
  The store reads the text it is sent. The words of a text are its maximal runs of
  characters other than the blank and the line break.
\<close>

definition is_space :: "char \<Rightarrow> bool" where
  "is_space c = (c = CHR '' '' \<or> c = CHR 0x0A)"

fun words_of :: "string \<Rightarrow> string \<Rightarrow> string list" where
  "words_of w [] = (if w = [] then [] else [w])"
| "words_of w (c # cs) =
     (if is_space c then (if w = [] then words_of [] cs else w # words_of [] cs)
      else words_of (w @ [c]) cs)"

text \<open>
  In the grammar of the store a table expression is the table name, then its optional
  alias, then the optional modifier \<open>FINAL\<close>; after \<open>FINAL\<close> the next word opens
  a sampling, a join or a later clause of the query. These are the words that may follow
  it. An alias written after \<open>FINAL\<close> is a syntax error.
\<close>

definition after_FINAL :: "string list" where
  "after_FINAL =
     [''SAMPLE'', ''ARRAY'', ''GLOBAL'', ''ANY'', ''ALL'', ''ASOF'', ''SEMI'', ''ANTI'',
      ''INNER'', ''LEFT'', ''RIGHT'', ''FULL'', ''CROSS'', ''JOIN'', ''PREWHERE'',
      ''WHERE'', ''GROUP'', ''HAVING'', ''WINDOW'', ''QUALIFY'', ''ORDER'', ''LIMIT'',
      ''OFFSET'', ''UNION'', ''INTERSECT'', ''EXCEPT'', ''SETTINGS'', ''FORMAT'', '')'']"

fun alias_after_FINAL :: "string list \<Rightarrow> bool" where
  "alias_after_FINAL (a # b # ws) =
     (if a = ''FINAL''
      then (if b \<in> set after_FINAL then alias_after_FINAL (b # ws) else True)
      else alias_after_FINAL (b # ws))"
| "alias_after_FINAL ws = False"

definition syntax_error :: error where
  "syntax_error = Error ''Error'' ''Syntax error''"

text \<open>
  The store answering a request: it rejects a text with an alias after \<open>FINAL\<close>, and
  resolves any other text with the rows \<open>run\<close> computes for it from the tables.
\<close>

definition clickhouse :: "(string \<Rightarrow> row list) \<Rightarrow> ch_request \<Rightarrow> error + row list" where
  "clickhouse run req =
     (if alias_after_FINAL (words_of [] (query req)) then Inl syntax_error
      else Inr (run (query req)))"

text \<open>
  The eligibility rule in the words of the specification, for comparison: the trace has
  an observation, the latest update over all its observations is older than the
  threshold, so is the trace's own timestamp, and the metadata has no \<open>feature_id\<close>.
\<close>

definition spec_eligible :: "nat \<Rightarrow> int \<Rightarrow> database \<Rightarrow> trace \<Rightarrow> bool" where
  "spec_eligible threshold now db t =
     (let own = filter (\<lambda>ob. o_trace_id ob = t_id t) (observations db)
      in own \<noteq> []
         \<and> Max (set (map updated_at own)) < cutoff threshold now
         \<and> timestamp t < cutoff threshold now
         \<and> \<not> has (mapKeys (metadata t)) ''feature_id'')"

section \<open>PeriodicRunner\<close>

text \<open>
  Modelled from the spec: the class \<open>PeriodicRunner\<close> (worker/src/utils/PeriodicRunner.ts),
  which \<open>TraceConclusionRunner\<close> extends, is not among the sources. The specification
  gives its contract: \<open>start\<close> fires the unit of work at once and then at every tick,
  \<open>stop\<close> lets the running invocation complete and begins no new one, a tick that
  finds an invocation still running is skipped and not queued, and an invocation that
  settles, by success or by error, is a completed cycle.
\<close>

datatype sched_event = Start | Tick | Settled | Stop

record scheduler =
  active :: bool
  in_flight :: nat
  started :: nat
  skipped :: nat

definition fire :: "scheduler \<Rightarrow> scheduler" where
  "fire s =
     (if in_flight s > 0 then s\<lparr>skipped := skipped s + 1\<rparr>
      else s\<lparr>in_flight := in_flight s + 1, started := started s + 1\<rparr>)"

fun sched_step :: "scheduler \<Rightarrow> sched_event \<Rightarrow> scheduler" where
  "sched_step s Start = (if active s then s else fire (s\<lparr>active := True\<rparr>))"
| "sched_step s Tick = (if active s then fire s else s)"
| "sched_step s Settled = s\<lparr>in_flight := in_flight s - 1\<rparr>"
| "sched_step s Stop = s\<lparr>active := False\<rparr>"

definition sched_init :: scheduler where
  "sched_init = \<lparr>active = False, in_flight = 0, started = 0, skipped = 0\<rparr>"

definition sched_run :: "sched_event list \<Rightarrow> scheduler" where
  "sched_run evs = foldl sched_step sched_init evs"

section \<open>Fixtures\<close>

text \<open>
  A notifier that rejects for \<open>trace-2\<close> and resolves for every other identifier, as
  the mocked client of the test "should continue processing after individual failures".
\<close>

definition flaky :: "string \<Rightarrow> ('w, unit) async" where
  "flaky traceId s =
     (if traceId = ''trace-2'' then (Inl (Error ''Error'' ''API error''), s) else (Inr (), s))"

definition idle :: "(unit \<times> (string \<times> bool) list) state" where
  "idle = \<lparr>logs = [], ext = ((), [])\<rparr>"

text \<open>A store that rejects, and a store that resolves with no row.\<close>

definition broken_store :: "ch_request \<Rightarrow> error + row list" where
  "broken_store req = Inl (Error ''Error'' ''ClickHouse error'')"

definition empty_store :: "ch_request \<Rightarrow> error + row list" where
  "empty_store req = Inr []"

text \<open>Collaborators of the cycle that reject, and a detector that finds two traces.\<close>

definition rejecting_find :: "(unit, string list) async" where
  "rejecting_find s = (Inl (Error ''TypeError'' ''find failed''), s)"

definition two_found :: "(unit, string list) async" where
  "two_found s = (Inr [''trace-1'', ''trace-2''], s)"

definition rejecting_process :: "string list \<Rightarrow> (unit, nat) async" where
  "rejecting_process traceIds s = (Inl (Error ''TypeError'' ''process failed''), s)"

text \<open>A stand-in for the notifier method that counts, in the world, how often it is invoked.\<close>

definition counting_process :: "string list \<Rightarrow> (nat, nat) async" where
  "counting_process traceIds s = (Inr 0, s\<lparr>ext := Suc (ext s)\<rparr>)"

text \<open>A server that answers 500 to the request for \<open>trace-2\<close> and 200 to every other.\<close>

definition failing_server :: "request list \<Rightarrow> request \<Rightarrow> http_outcome" where
  "failing_server received req =
     (if body_trace_id req = ''trace-2'' then Response 500 else Response 200)"

text \<open>
  One trace created 200 seconds before \<open>now0\<close>, without \<open>feature_id\<close>, whose only
  observation was updated 120 seconds ago.
\<close>

definition now0 :: int where
  "now0 = 1000000"

definition trace1 :: trace where
  "trace1 = \<lparr>t_id = ''trace-1'', timestamp = 800000, metadata = [(''user'', ''u1'')]\<rparr>"

definition db1 :: database where
  "db1 =
     \<lparr>observations = [\<lparr>o_trace_id = ''trace-1'', updated_at = 880000\<rparr>],
      traces = [trace1]\<rparr>"

section \<open>Properties\<close>

lemma decimal_60: "decimal 60 = ''60''"
  by (simp add: decimal.simps [of 60] decimal.simps [of 6])

lemma query_text_window:
  "sublist (''INTERVAL '' @ decimal n @ '' SECOND'') (query_text n)"
proof -
  have "\<exists>ps ss. query_text n = ps @ (''INTERVAL '' @ decimal n @ '' SECOND'') @ ss"
    unfolding query_text_def
    by (rule exI [of _ "nl @ ''      WITH trace_latest_updates AS ('' @
     nl @ ''        SELECT'' @
     nl @ ''          trace_id,'' @
     nl @ ''          max(updated_at) as last_updated'' @
     nl @ ''        FROM observations FINAL'' @
     nl @ ''        WHERE updated_at < now() - ''"], rule exI, simp)
  then show ?thesis by (simp add: sublist_def)
qed

lemma query_text_limit: "sublist ''LIMIT 1000'' (query_text n)"
proof -
  have "\<exists>ps ss. query_text n = ps @ ''LIMIT 1000'' @ ss"
    unfolding query_text_def
    apply (rule exI [of _ "nl @ ''      WITH trace_latest_updates AS ('' @
     nl @ ''        SELECT'' @
     nl @ ''          trace_id,'' @
     nl @ ''          max(updated_at) as last_updated'' @
     nl @ ''        FROM observations FINAL'' @
     nl @ ''        WHERE updated_at < now() - INTERVAL '' @ decimal n @ '' SECOND'' @
     nl @ ''        GROUP BY trace_id'' @
     nl @ ''      )'' @
     nl @ ''      SELECT DISTINCT'' @
     nl @ ''        t.id as trace_id'' @
     nl @ ''      FROM traces FINAL t'' @
     nl @ ''      INNER JOIN trace_latest_updates tlu ON t.id = tlu.trace_id'' @
     nl @ ''      WHERE NOT has(mapKeys(t.metadata), 'feature_id')'' @
     nl @ ''      AND t.timestamp < now() - INTERVAL '' @ decimal n @ '' SECOND'' @
     nl @ ''      ''"])
    apply (rule exI [of _ "nl @ ''    ''"])
    apply simp
    done
  then show ?thesis by (simp add: sublist_def)
qed

subsection \<open>The query text\<close>

text \<open>
  C7. The query that \<open>findConcludedTraces\<close> sends contains the threshold and the row
  limit verbatim: with the threshold 60 of the service it contains
  \<open>INTERVAL 60 SECOND\<close> and \<open>LIMIT 1000\<close>, and for any threshold \<open>n\<close> put in
  the hole of the template it contains \<open>INTERVAL n SECOND\<close> and \<open>LIMIT 1000\<close>.
\<close>

theorem query_contains_threshold_and_cap:
  "sublist ''INTERVAL 60 SECOND'' (query concluded_request)
   \<and> sublist ''LIMIT 1000'' (query concluded_request)
   \<and> sublist (''INTERVAL '' @ decimal n @ '' SECOND'') (query_text n)
   \<and> sublist ''LIMIT 1000'' (query_text n)"
  using query_text_window [of 60] query_text_window [of n]
    query_text_limit [of 60] query_text_limit [of n]
  by (simp add: concluded_request_def INACTIVITY_THRESHOLD_SECONDS_def decimal_60)

subsection \<open>The notifier on the empty list\<close>

text \<open>
  C9. On the empty candidate list \<open>processConcludedTraces\<close> returns 0 and leaves the
  state as it was, whatever the notifier: no call is made and no line is logged,
  neither the \<open>Processing\<close> line nor the summary.
\<close>

theorem processConcludedTraces_empty:
  "processConcludedTraces notify [] s = (Inr 0, s)"
  by (simp add: processConcludedTraces_def)


subsection \<open>One call per candidate\<close>

lemma calls_logger [simp]:
  "calls (logger_debug m s) = calls s"
  "calls (logger_info m s) = calls s"
  "calls (logger_error m e s) = calls s"
  by (simp_all add: calls_def logger_debug_def logger_info_def logger_error_def)

lemma spy_calls:
  "spy notify t s = (r, s1) \<Longrightarrow> calls s1 = calls s @ [(t, \<not> isl r)]"
  by (auto simp: spy_def calls_def split: prod.splits)

lemma notify_loop_spy:
  "notify_loop (spy notify) ids (sc, fc) s = ((sc', fc'), s') \<Longrightarrow>
     \<exists>new. calls s' = calls s @ new \<and> map fst new = ids
        \<and> sc' = sc + length (filter snd new)
        \<and> fc' = fc + length (filter (\<lambda>c. \<not> snd c) new)"
proof (induction ids arbitrary: sc fc s)
  case Nil
  then show ?case by simp
next
  case (Cons t ids)
  obtain r s1 where step: "spy notify t s = (r, s1)" by (cases "spy notify t s")
  have c1: "calls s1 = calls s @ [(t, \<not> isl r)]" using spy_calls [OF step] .
  show ?case
  proof (cases r)
    case (Inl e)
    with Cons.prems step
    have "notify_loop (spy notify) ids (sc, fc + 1)
            (logger_error (''Failed to notify trace concluded for '' @ t @ '':'') (Some e) s1)
          = ((sc', fc'), s')" by simp
    from Cons.IH [OF this] obtain new where
      n: "calls s' = calls s1 @ new" "map fst new = ids"
         "sc' = sc + length (filter snd new)"
         "fc' = fc + 1 + length (filter (\<lambda>c. \<not> snd c) new)" by auto
    show ?thesis
      by (rule exI [of _ "(t, False) # new"]) (use n c1 Inl in simp)
  next
    case (Inr u)
    with Cons.prems step
    have "notify_loop (spy notify) ids (sc + 1, fc)
            (logger_debug (''Successfully notified trace concluded: '' @ t) s1)
          = ((sc', fc'), s')" by simp
    from Cons.IH [OF this] obtain new where
      n: "calls s' = calls s1 @ new" "map fst new = ids"
         "sc' = sc + 1 + length (filter snd new)"
         "fc' = fc + length (filter (\<lambda>c. \<not> snd c) new)" by auto
    show ?thesis
      by (rule exI [of _ "(t, True) # new"]) (use n c1 Inr in simp)
  qed
qed

lemma flaky_run:
  "processConcludedTraces (spy flaky) [''trace-1'', ''trace-2'', ''trace-3''] idle =
     (Inr 2,
      \<lparr>logs = [Log INFO ''Processing 3 concluded traces'' None,
               Log DEBUG ''Successfully notified trace concluded: trace-1'' None,
               Log ERROR ''Failed to notify trace concluded for trace-2:''
                 (Some (Error ''Error'' ''API error'')),
               Log DEBUG ''Successfully notified trace concluded: trace-3'' None,
               Log INFO ''Processed concluded traces: 2 succeeded, 1 failed'' None],
       ext = ((), [(''trace-1'', True), (''trace-2'', False), (''trace-3'', True)])\<rparr>)"
  by (simp add: processConcludedTraces_def spy_def flaky_def idle_def summary_text_def
      logger_debug_def logger_info_def logger_error_def decimal.simps)

text \<open>
  C2. For every notifier and every candidate list of length k, \<open>processConcludedTraces\<close>
  calls the notifier exactly k times, once per candidate and whatever the outcome of the
  earlier calls (a rejected call does not stop the later ones), and it returns the
  number of calls that resolved, a value between 0 and k. The calls are those recorded
  by the wrapper \<open>spy\<close> around the notifier: \<open>new\<close> is what one run adds to the record.
\<close>

theorem processConcludedTraces_one_call_each:
  assumes "processConcludedTraces (spy notify) traceIds s = (r, s')"
  shows "\<exists>new. calls s' = calls s @ new \<and> map fst new = traceIds
           \<and> length new = length traceIds
           \<and> r = Inr (length (filter snd new))
           \<and> length (filter snd new) \<le> length traceIds"
proof (cases "traceIds = []")
  case True
  with assms show ?thesis by (simp add: processConcludedTraces_def)
next
  case False
  obtain sc fc s2 where loop:
    "notify_loop (spy notify) traceIds (0, 0)
       (logger_info (''Processing '' @ decimal (length traceIds) @ '' concluded traces'') s)
     = ((sc, fc), s2)"
    by (metis surj_pair)
  from notify_loop_spy [OF loop] obtain new where
    n: "calls s2 = calls s @ new" "map fst new = traceIds" "sc = length (filter snd new)"
    by auto
  from assms False loop have r: "r = Inr sc" "s' = logger_info (summary_text sc fc) s2"
    by (auto simp: processConcludedTraces_def)
  have len: "length new = length traceIds" using n(2) by (metis length_map)
  have "length (filter snd new) \<le> length new" by simp
  with n r len show ?thesis by auto
qed

theorem processConcludedTraces_one_call_each_witness:
  "\<exists>new. calls \<lparr>logs = [Log INFO ''Processing 3 concluded traces'' None,
               Log DEBUG ''Successfully notified trace concluded: trace-1'' None,
               Log ERROR ''Failed to notify trace concluded for trace-2:''
                 (Some (Error ''Error'' ''API error'')),
               Log DEBUG ''Successfully notified trace concluded: trace-3'' None,
               Log INFO ''Processed concluded traces: 2 succeeded, 1 failed'' None],
       ext = ((), [(''trace-1'', True), (''trace-2'', False), (''trace-3'', True)])\<rparr>
        = calls idle @ new
      \<and> map fst new = [''trace-1'', ''trace-2'', ''trace-3'']
      \<and> length new = length [''trace-1'', ''trace-2'', ''trace-3'']
      \<and> Inr 2 = (Inr (length (filter snd new)) :: error + nat)
      \<and> length (filter snd new) \<le> length [''trace-1'', ''trace-2'', ''trace-3'']"
  by (rule processConcludedTraces_one_call_each [OF flaky_run])

subsection \<open>Order of the calls and the summary line\<close>

lemma logs_last_info [simp]:
  "last (logs (logger_info m s)) = Log INFO m None"
  by (simp add: logger_info_def)

lemma notify_loop_append:
  "notify_loop notify (xs @ ys) c s =
     (case notify_loop notify xs c s of (c', s1) \<Rightarrow> notify_loop notify ys c' s1)"
proof (induction xs arbitrary: c s)
  case Nil
  then show ?case by (cases c) simp
next
  case (Cons x xs)
  then show ?case by (cases c) (simp split: prod.splits sum.splits)
qed

text \<open>
  C10. On a non-empty candidate list the recorded calls of one run are the input list
  itself: same order, and an identifier that occurs several times is called once per
  occurrence. The last log line is the summary, and its two counters add up to the
  length of the list. The calls are made one after the other: the loop over \<open>xs @ ys\<close>
  is the loop over \<open>xs\<close> followed, from the counters and the state it leaves, by the
  loop over \<open>ys\<close>.
\<close>

theorem processConcludedTraces_in_order:
  assumes "traceIds \<noteq> []"
      and "processConcludedTraces (spy notify) traceIds s = (r, s')"
  shows "map fst (drop (length (calls s)) (calls s')) = traceIds
         \<and> (\<exists>successCount failureCount.
               last (logs s') = Log INFO (summary_text successCount failureCount) None
               \<and> successCount + failureCount = length traceIds
               \<and> r = Inr successCount)
         \<and> notify_loop notify (xs @ ys) c s0 =
             (case notify_loop notify xs c s0 of (c', s1) \<Rightarrow> notify_loop notify ys c' s1)"
proof -
  obtain sc fc s2 where loop:
    "notify_loop (spy notify) traceIds (0, 0)
       (logger_info (''Processing '' @ decimal (length traceIds) @ '' concluded traces'') s)
     = ((sc, fc), s2)"
    by (metis surj_pair)
  from notify_loop_spy [OF loop] obtain new where
    n: "calls s2 = calls s @ new" "map fst new = traceIds"
       "sc = length (filter snd new)" "fc = length (filter (\<lambda>c. \<not> snd c) new)"
    by auto
  from assms loop have r: "r = Inr sc" "s' = logger_info (summary_text sc fc) s2"
    by (auto simp: processConcludedTraces_def)
  have len: "length new = length traceIds" using n(2) by (metis length_map)
  have "length (filter snd new) + length (filter (\<lambda>c. \<not> snd c) new) = length new"
    by (rule sum_length_filter_compl)
  with n len have sum: "sc + fc = length traceIds" by simp
  have a: "map fst (drop (length (calls s)) (calls s')) = traceIds"
    using r n by simp
  have b: "\<exists>successCount failureCount.
               last (logs s') = Log INFO (summary_text successCount failureCount) None
               \<and> successCount + failureCount = length traceIds
               \<and> r = Inr successCount"
    using r sum by auto
  show ?thesis using a b notify_loop_append by blast
qed


theorem processConcludedTraces_in_order_witness:
  "[''trace-1'', ''trace-2'', ''trace-3''] \<noteq> []
   \<and> map fst (drop (length (calls idle))
        (calls (snd (processConcludedTraces (spy flaky) [''trace-1'', ''trace-2'', ''trace-3''] idle))))
       = [''trace-1'', ''trace-2'', ''trace-3'']
   \<and> last (logs (snd (processConcludedTraces (spy flaky) [''trace-1'', ''trace-2'', ''trace-3''] idle)))
       = Log INFO ''Processed concluded traces: 2 succeeded, 1 failed'' None"
  using processConcludedTraces_in_order
    [where xs = "[''trace-1'']" and ys = "[''trace-2'']" and c = "(0, 0)"
       and ?s0.0 = "\<lparr>logs = [], ext = ()\<rparr>", OF _ flaky_run]
  by (simp add: flaky_run [unfolded idle_def] calls_def idle_def)

subsection \<open>A failing detection query\<close>

text \<open>
  C3. If the store rejects the request of \<open>findConcludedTraces\<close>, the method
  resolves with the empty list and logs the error, and the whole cycle resolves with 0,
  leaves only that error line, and makes no call to the notifier (the record of calls
  is as before).
\<close>

theorem query_failure_gives_empty_cycle:
  assumes "queryClickhouse concluded_request = Inl e"
  shows "findConcludedTraces queryClickhouse s =
           (Inr [], logger_error ''Failed to query concluded traces:'' (Some e) s)
         \<and> checkAndProcessConcludedTraces queryClickhouse (spy notify) s =
           (Inr 0, logger_error ''Failed to query concluded traces:'' (Some e) s)
         \<and> calls (snd (checkAndProcessConcludedTraces queryClickhouse (spy notify) s)) = calls s"
  using assms
  by (simp add: findConcludedTraces_def checkAndProcessConcludedTraces_def
      checkAndProcessConcludedTraces_on_def processConcludedTraces_def)

theorem query_failure_gives_empty_cycle_witness:
  "broken_store concluded_request = Inl (Error ''Error'' ''ClickHouse error'')
   \<and> findConcludedTraces broken_store idle =
        (Inr [], \<lparr>logs = [Log ERROR ''Failed to query concluded traces:''
                            (Some (Error ''Error'' ''ClickHouse error''))],
                  ext = ((), [])\<rparr>)
   \<and> checkAndProcessConcludedTraces broken_store (spy flaky) idle =
        (Inr 0, \<lparr>logs = [Log ERROR ''Failed to query concluded traces:''
                            (Some (Error ''Error'' ''ClickHouse error''))],
                  ext = ((), [])\<rparr>)"
  using query_failure_gives_empty_cycle
    [of broken_store "Error ''Error'' ''ClickHouse error''" idle flaky]
  by (simp add: broken_store_def idle_def logger_error_def)

subsection \<open>The failure boundary of the cycle\<close>

text \<open>
  C5. \<open>checkAndProcessConcludedTraces\<close> never rejects: whatever the two methods it
  calls do, it resolves with a number. If the detector rejects, or the notifier method
  rejects on the list found, the error is logged and the cycle resolves with 0.
\<close>

theorem checkAndProcessConcludedTraces_never_throws:
  "(\<exists>n. fst (checkAndProcessConcludedTraces_on findTraces process s) = Inr n)
   \<and> (findTraces s = (Inl e, s1) \<longrightarrow>
        checkAndProcessConcludedTraces_on findTraces process s =
          (Inr 0, logger_error ''Error in trace conclusion check:'' (Some e) s1))
   \<and> (findTraces s = (Inr traceIds, s1) \<and> process traceIds s1 = (Inl e, s2) \<longrightarrow>
        checkAndProcessConcludedTraces_on findTraces process s =
          (Inr 0, logger_error ''Error in trace conclusion check:'' (Some e) s2))
   \<and> (\<exists>n. fst (checkAndProcessConcludedTraces queryClickhouse notify s) = Inr n)"
  by (auto simp: checkAndProcessConcludedTraces_on_def checkAndProcessConcludedTraces_def
      split: prod.splits sum.splits)

theorem checkAndProcessConcludedTraces_never_throws_witness:
  "rejecting_find \<lparr>logs = [], ext = ()\<rparr> =
     (Inl (Error ''TypeError'' ''find failed''), \<lparr>logs = [], ext = ()\<rparr>)
   \<and> checkAndProcessConcludedTraces_on rejecting_find rejecting_process \<lparr>logs = [], ext = ()\<rparr> =
       (Inr 0, \<lparr>logs = [Log ERROR ''Error in trace conclusion check:''
                          (Some (Error ''TypeError'' ''find failed''))], ext = ()\<rparr>)
   \<and> two_found \<lparr>logs = [], ext = ()\<rparr> = (Inr [''trace-1'', ''trace-2''], \<lparr>logs = [], ext = ()\<rparr>)
   \<and> rejecting_process [''trace-1'', ''trace-2''] \<lparr>logs = [], ext = ()\<rparr> =
       (Inl (Error ''TypeError'' ''process failed''), \<lparr>logs = [], ext = ()\<rparr>)
   \<and> checkAndProcessConcludedTraces_on two_found rejecting_process \<lparr>logs = [], ext = ()\<rparr> =
       (Inr 0, \<lparr>logs = [Log ERROR ''Error in trace conclusion check:''
                          (Some (Error ''TypeError'' ''process failed''))], ext = ()\<rparr>)"
  using checkAndProcessConcludedTraces_never_throws
    [of rejecting_find rejecting_process "\<lparr>logs = [], ext = ()\<rparr>"
        "Error ''TypeError'' ''find failed''" "\<lparr>logs = [], ext = ()\<rparr>"
        "[]" "\<lparr>logs = [], ext = ()\<rparr>" empty_store flaky]
    checkAndProcessConcludedTraces_never_throws
    [of two_found rejecting_process "\<lparr>logs = [], ext = ()\<rparr>"
        "Error ''TypeError'' ''process failed''" "\<lparr>logs = [], ext = ()\<rparr>"
        "[''trace-1'', ''trace-2'']" "\<lparr>logs = [], ext = ()\<rparr>" empty_store flaky]
  by (simp add: rejecting_find_def rejecting_process_def two_found_def logger_error_def)


subsection \<open>A cycle that finds nothing\<close>

text \<open>
  C8, as the specification states it: when detection finds nothing the cycle returns 0
  without invoking the notifier, and itself emits a "nothing to process" line. With a
  store that resolves with no row and, in place of \<open>processConcludedTraces\<close>, a
  method that counts its invocations, the count goes from 0 to 1 and the cycle logs
  nothing: the notifier method is invoked, on the empty list, and the cycle emits no line.
\<close>

theorem empty_detection_still_invokes_notifier:
  "checkAndProcessConcludedTraces_on (findConcludedTraces empty_store) counting_process
     \<lparr>logs = [], ext = 0\<rparr> = (Inr 0, \<lparr>logs = [], ext = Suc 0\<rparr>)"
  by (simp add: checkAndProcessConcludedTraces_on_def findConcludedTraces_def empty_store_def
      counting_process_def)

text \<open>
  C8, as the code has it. Whenever the detector resolves with the empty list, be it
  that the store found no row or that the store rejected and the detector caught it, the
  cycle passes the empty list to the notifier method and resolves with what that
  method resolves with. With \<open>processConcludedTraces\<close>, for any notifier, the cycle
  resolves with 0 and leaves the state as the detector left it: no call is made and
  neither the \<open>Processing\<close> line nor the summary is logged. The line
  "no traces to process" is logged by \<open>execute\<close>, which runs the cycle after its
  start line.
\<close>

theorem empty_detection_cycle:
  assumes "findTraces s = (Inr [], s1)"
  shows "(process [] s1 = (Inr n, s2) \<longrightarrow>
            checkAndProcessConcludedTraces_on findTraces process s = (Inr n, s2))
         \<and> checkAndProcessConcludedTraces_on findTraces (processConcludedTraces notify) s
             = (Inr 0, s1)
         \<and> (s = logger_debug ''Starting trace conclusion check'' s0 \<longrightarrow>
              execute (checkAndProcessConcludedTraces_on findTraces
                         (processConcludedTraces notify)) s0 =
                (Inr (), logger_debug ''Trace conclusion check: no traces to process'' s1))"
proof -
  have a: "process [] s1 = (Inr n, s2) \<longrightarrow>
            checkAndProcessConcludedTraces_on findTraces process s = (Inr n, s2)"
    using assms by (simp add: checkAndProcessConcludedTraces_on_def)
  have b: "checkAndProcessConcludedTraces_on findTraces (processConcludedTraces notify) s
             = (Inr 0, s1)"
    using assms by (simp add: checkAndProcessConcludedTraces_on_def processConcludedTraces_def)
  have c: "execute (checkAndProcessConcludedTraces_on findTraces
                      (processConcludedTraces notify)) s0 =
             (Inr (), logger_debug ''Trace conclusion check: no traces to process'' s1)"
    if "s = logger_debug ''Starting trace conclusion check'' s0"
    using b that by (simp add: execute_def)
  from a b c show ?thesis by blast
qed

theorem empty_detection_cycle_witness:
  "findConcludedTraces empty_store
       (logger_debug ''Starting trace conclusion check'' \<lparr>logs = [], ext = 0\<rparr>) =
     (Inr [], \<lparr>logs = [Log DEBUG ''Starting trace conclusion check'' None], ext = 0\<rparr>)
   \<and> counting_process [] \<lparr>logs = [Log DEBUG ''Starting trace conclusion check'' None], ext = 0\<rparr>
       = (Inr 0, \<lparr>logs = [Log DEBUG ''Starting trace conclusion check'' None], ext = Suc 0\<rparr>)
   \<and> checkAndProcessConcludedTraces_on (findConcludedTraces empty_store) counting_process
        (logger_debug ''Starting trace conclusion check'' \<lparr>logs = [], ext = 0\<rparr>)
       = (Inr 0, \<lparr>logs = [Log DEBUG ''Starting trace conclusion check'' None], ext = Suc 0\<rparr>)
   \<and> checkAndProcessConcludedTraces empty_store flaky
        (logger_debug ''Starting trace conclusion check'' \<lparr>logs = [], ext = 0\<rparr>)
       = (Inr 0, \<lparr>logs = [Log DEBUG ''Starting trace conclusion check'' None], ext = (0::nat)\<rparr>)
   \<and> execute (checkAndProcessConcludedTraces empty_store flaky) \<lparr>logs = [], ext = (0::nat)\<rparr> =
        (Inr (), \<lparr>logs = [Log DEBUG ''Starting trace conclusion check'' None,
                           Log DEBUG ''Trace conclusion check: no traces to process'' None],
                  ext = 0\<rparr>)
   \<and> findConcludedTraces broken_store
       (logger_debug ''Starting trace conclusion check'' \<lparr>logs = [], ext = (0::nat)\<rparr>) =
     (Inr [], \<lparr>logs = [Log DEBUG ''Starting trace conclusion check'' None,
                        Log ERROR ''Failed to query concluded traces:''
                          (Some (Error ''Error'' ''ClickHouse error''))], ext = 0\<rparr>)
   \<and> execute (checkAndProcessConcludedTraces broken_store flaky) \<lparr>logs = [], ext = (0::nat)\<rparr> =
        (Inr (), \<lparr>logs = [Log DEBUG ''Starting trace conclusion check'' None,
                           Log ERROR ''Failed to query concluded traces:''
                             (Some (Error ''Error'' ''ClickHouse error'')),
                           Log DEBUG ''Trace conclusion check: no traces to process'' None],
                  ext = 0\<rparr>)"
  using empty_detection_cycle
    [where findTraces = "findConcludedTraces empty_store"
       and s = "logger_debug ''Starting trace conclusion check'' \<lparr>logs = [], ext = 0\<rparr>"
       and ?s1.0 = "\<lparr>logs = [Log DEBUG ''Starting trace conclusion check'' None], ext = 0\<rparr>"
       and process = counting_process and n = 0
       and ?s2.0 = "\<lparr>logs = [Log DEBUG ''Starting trace conclusion check'' None], ext = Suc 0\<rparr>"
       and notify = flaky and ?s0.0 = "\<lparr>logs = [], ext = 0\<rparr>"]
    empty_detection_cycle
    [where findTraces = "findConcludedTraces broken_store"
       and s = "logger_debug ''Starting trace conclusion check'' \<lparr>logs = [], ext = 0\<rparr>"
       and ?s1.0 = "\<lparr>logs = [Log DEBUG ''Starting trace conclusion check'' None,
                        Log ERROR ''Failed to query concluded traces:''
                          (Some (Error ''Error'' ''ClickHouse error''))], ext = 0\<rparr>"
       and process = counting_process and n = 0
       and ?s2.0 = "\<lparr>logs = [Log DEBUG ''Starting trace conclusion check'' None,
                        Log ERROR ''Failed to query concluded traces:''
                          (Some (Error ''Error'' ''ClickHouse error''))], ext = Suc 0\<rparr>"
       and notify = flaky and ?s0.0 = "\<lparr>logs = [], ext = 0\<rparr>"]
  by (simp add: empty_store_def broken_store_def counting_process_def findConcludedTraces_def
      checkAndProcessConcludedTraces_def logger_debug_def logger_error_def)

subsection \<open>HTTP failures and the counters\<close>

lemma notifyTraceConcluded_resolves:
  "fst (notifyTraceConcluded server base t s) = Inr ()"
  by (simp add: notifyTraceConcluded_def split: prod.splits sum.splits)

lemma notify_loop_all_resolved:
  assumes "\<And>t s. fst (notify t s) = Inr ()"
  shows "fst (notify_loop notify ids (sc, fc) s) = (sc + length ids, fc)"
proof (induction ids arbitrary: sc s)
  case Nil
  then show ?case by simp
next
  case (Cons t ids)
  obtain r s1 where step: "notify t s = (r, s1)" by (cases "notify t s")
  with assms [of t s] have "r = Inr ()" by simp
  with step Cons.IH show ?case by simp
qed

lemma processConcludedTraces_never_counts_failure:
  "fst (processConcludedTraces (notifyTraceConcluded server base) traceIds s)
     = Inr (length traceIds)"
proof (cases "traceIds = []")
  case True
  then show ?thesis by (simp add: processConcludedTraces_def)
next
  case False
  obtain sc fc s2 where loop:
    "notify_loop (notifyTraceConcluded server base) traceIds (0, 0)
       (logger_info (''Processing '' @ decimal (length traceIds) @ '' concluded traces'') s)
     = ((sc, fc), s2)"
    by (metis surj_pair)
  have "fst (notify_loop (notifyTraceConcluded server base) traceIds (0, 0)
       (logger_info (''Processing '' @ decimal (length traceIds) @ '' concluded traces'') s))
          = (0 + length traceIds, 0)"
    by (rule notify_loop_all_resolved) (rule notifyTraceConcluded_resolves)
  with loop have "sc = length traceIds" by simp
  with False loop show ?thesis
    by (simp add: processConcludedTraces_def)
qed

text \<open>
  C4. Each candidate is posted to \<open>base/api/features/analyze\<close> with its identifier as
  \<open>trace_id\<close>. With three candidates and a server that answers 500 to the second, the
  three posts are made, but the documented \<open>notifyTraceConcluded\<close> catches the
  rejection of the second post itself: the loop counts that candidate as a success, the
  result is 3, the summary reads "3 succeeded, 0 failed", and the only error line is the
  one of \<open>notifyTraceConcluded\<close>, which does not name the candidate.
\<close>

theorem http_failure_counted_as_success:
  "processConcludedTraces (notifyTraceConcluded failing_server ''http://localhost:3000'')
     [''trace-1'', ''trace-2'', ''trace-3''] \<lparr>logs = [], ext = []\<rparr> =
   (Inr 3,
    \<lparr>logs = [Log INFO ''Processing 3 concluded traces'' None,
             Log DEBUG ''Successfully notified trace concluded: trace-1'' None,
             Log ERROR ''Failed to notify features analyze: AxiosError: Request failed with status code 500'' None,
             Log DEBUG ''Successfully notified trace concluded: trace-2'' None,
             Log DEBUG ''Successfully notified trace concluded: trace-3'' None,
             Log INFO ''Processed concluded traces: 3 succeeded, 0 failed'' None],
     ext = [Post ''http://localhost:3000/api/features/analyze'' ''trace-1'',
            Post ''http://localhost:3000/api/features/analyze'' ''trace-2'',
            Post ''http://localhost:3000/api/features/analyze'' ''trace-3'']\<rparr>)"
  by (simp add: processConcludedTraces_def notifyTraceConcluded_def axios_post_def
      failing_server_def summary_text_def toString_def
      logger_debug_def logger_info_def logger_error_def decimal.simps)

subsection \<open>What the query selects\<close>

lemma shipped_text_rejected:
  "alias_after_FINAL (words_of [] (query concluded_request))"
  by (simp add: concluded_request_def query_text_def nl_def is_space_def after_FINAL_def
      INACTIVITY_THRESHOLD_SECONDS_def decimal_60)

text \<open>
  C1. The trace of \<open>db1\<close> meets the four conditions: it has an observation, its latest
  update is 120 seconds old, it was created 200 seconds ago and its metadata has no
  \<open>feature_id\<close>. The text that \<open>findConcludedTraces\<close> sends has the alias of the
  table \<open>traces\<close> after \<open>FINAL\<close>, so the store rejects it whatever its tables hold:
  \<open>findConcludedTraces\<close> logs the error and resolves with the empty list, and the
  trace is not selected.
\<close>

theorem eligible_trace_not_selected:
  "spec_eligible INACTIVITY_THRESHOLD_SECONDS now0 db1 trace1
   \<and> trace1 \<in> set (traces db1)
   \<and> findConcludedTraces (clickhouse run) s =
       (Inr [], logger_error ''Failed to query concluded traces:'' (Some syntax_error) s)"
proof -
  have "spec_eligible INACTIVITY_THRESHOLD_SECONDS now0 db1 trace1"
    by (simp add: spec_eligible_def db1_def trace1_def now0_def cutoff_def has_def
        mapKeys_def INACTIVITY_THRESHOLD_SECONDS_def)
  moreover have "trace1 \<in> set (traces db1)"
    by (simp add: db1_def)
  moreover have "clickhouse run concluded_request = Inl syntax_error"
    using shipped_text_rejected by (simp add: clickhouse_def)
  then have "findConcludedTraces (clickhouse run) s =
       (Inr [], logger_error ''Failed to query concluded traces:'' (Some syntax_error) s)"
    by (simp add: findConcludedTraces_def)
  ultimately show ?thesis by simp
qed

subsection \<open>The scheduler\<close>

lemma fire_in_flight: "in_flight s \<le> 1 \<Longrightarrow> in_flight (fire s) \<le> 1"
  by (simp add: fire_def)

lemma sched_step_in_flight: "in_flight s \<le> 1 \<Longrightarrow> in_flight (sched_step s ev) \<le> 1"
  by (cases ev) (simp_all add: fire_def)

lemma sched_foldl_in_flight:
  "in_flight s \<le> 1 \<Longrightarrow> in_flight (foldl sched_step s evs) \<le> 1"
proof (induction evs arbitrary: s)
  case Nil
  then show ?case by simp
next
  case (Cons ev evs)
  from Cons.prems have "in_flight (sched_step s ev) \<le> 1" by (rule sched_step_in_flight)
  then have "in_flight (foldl sched_step (sched_step s ev) evs) \<le> 1" by (rule Cons.IH)
  then show ?case by simp
qed

text \<open>
  C6. After any sequence of events at most one invocation of the unit of work is in
  flight. A tick that arrives while one is in flight starts nothing (it is skipped), and
  it is not queued either: when the running invocation then settles, nothing is in
  flight and no further invocation has started.
\<close>

theorem scheduler_no_overlap:
  "in_flight (sched_run evs) \<le> 1
   \<and> (in_flight (sched_run evs) = 1 \<longrightarrow>
        in_flight (sched_step (sched_run evs) Tick) = 1
        \<and> started (sched_step (sched_run evs) Tick) = started (sched_run evs)
        \<and> in_flight (sched_step (sched_step (sched_run evs) Tick) Settled) = 0
        \<and> started (sched_step (sched_step (sched_run evs) Tick) Settled)
            = started (sched_run evs))"
proof -
  have "in_flight (sched_run evs) \<le> 1"
    unfolding sched_run_def by (rule sched_foldl_in_flight) (simp add: sched_init_def)
  then show ?thesis by (simp add: fire_def)
qed

theorem scheduler_no_overlap_witness:
  "in_flight (sched_run [Start, Tick]) = 1
   \<and> started (sched_run [Start, Tick]) = 1
   \<and> skipped (sched_run [Start, Tick]) = 1
   \<and> in_flight (sched_step (sched_run [Start, Tick]) Tick) = 1
   \<and> started (sched_step (sched_run [Start, Tick]) Tick) = 1
   \<and> in_flight (sched_step (sched_step (sched_run [Start, Tick]) Tick) Settled) = 0
   \<and> started (sched_step (sched_step (sched_run [Start, Tick]) Tick) Settled) = 1"
  using scheduler_no_overlap [of "[Start, Tick]"]
  by (simp add: sched_run_def sched_init_def fire_def)

end
